theory Spec2Isabelle
  imports Complex_Main
begin

section \<open>Speech enhancement inference: synthesize.py\<close>

text \<open>
  The script \<^verbatim>\<open>synthesize.py\<close> wires a pretrained separation model to three
  entry points: \<^verbatim>\<open>run\<close> (one file), \<^verbatim>\<open>validate\<close> (a paired
  noisy/clean loader) and \<^verbatim>\<open>test_dir\<close> (a directory tree). Samples are modelled
  as exact reals, so rounding of the 32-bit floats is outside the model. Everything the
  script reaches through a library (audio decoding, the network, the low-pass filter,
  the file system) is a field of an environment record or an event of a trace.
\<close>

subsection \<open>Data\<close>

type_synonym wave = "real list"
type_synonym batch = "wave list"
type_synonym path = string

subsection \<open>Signal transform\<close>

text \<open>
  Modelled from the spec: \<^verbatim>\<open>preemphasis\<close> and \<^verbatim>\<open>inv_preemphasis\<close> are
  imported from \<^verbatim>\<open>pytorch_sound.utils.sound\<close>, which is not among the sources. The
  spec gives them as the recurrences \<open>y[0] = x[0]\<close>, \<open>y[n] = x[n] - a*x[n-1]\<close> and
  \<open>x[0] = y[0]\<close>, \<open>x[n] = y[n] + a*x[n-1]\<close>. Both filters start from a zero state: the
  second argument is the previous input sample (forward) or the previous output sample
  (inverse).
\<close>

fun pre_filter :: "real \<Rightarrow> real \<Rightarrow> wave \<Rightarrow> wave" where
  "pre_filter a prev [] = []"
| "pre_filter a prev (x # xs) = (x - a * prev) # pre_filter a x xs"

fun inv_filter :: "real \<Rightarrow> real \<Rightarrow> wave \<Rightarrow> wave" where
  "inv_filter a prev [] = []"
| "inv_filter a prev (y # ys) = (y + a * prev) # inv_filter a (y + a * prev) ys"

definition pre_emphasis :: "real \<Rightarrow> wave \<Rightarrow> wave" where
  "pre_emphasis a x = pre_filter a 0 x"

definition de_emphasis :: "real \<Rightarrow> wave \<Rightarrow> wave" where
  "de_emphasis a y = inv_filter a 0 y"

text \<open>Modelled from the spec: the fixed coefficient, \<open>a = 0.97\<close> in the spec's scenario.\<close>

definition coeff :: real where
  "coeff = 97 / 100"

definition preemphasis :: "wave \<Rightarrow> wave" where
  "preemphasis x = pre_emphasis coeff x"

definition inv_preemphasis :: "wave \<Rightarrow> wave" where
  "inv_preemphasis y = de_emphasis coeff y"

text \<open>\<^verbatim>\<open>ndarray.clip(-1., 1.)\<close>: every sample is clamped, \<open>minimum(maximum(s, -1), 1)\<close>.\<close>

definition clip :: "wave \<Rightarrow> wave" where
  "clip w = map (\<lambda>s. min 1 (max (- 1) s)) w"

subsection \<open>Arrays with no axis\<close>

text \<open>
  \<^verbatim>\<open>ndarray.squeeze()\<close> removes every axis of length one. On the one-dimensional
  rows handled here it returns the row unchanged, unless the row has exactly one
  sample: then the result has no axis left (a 0-dimensional array).
\<close>

datatype ndarray = Scalar real | Vector wave

definition squeeze :: "wave \<Rightarrow> ndarray" where
  "squeeze w = (case w of [s] \<Rightarrow> Scalar s | _ \<Rightarrow> Vector w)"

subsection \<open>Paths and strings of the Python library\<close>

text \<open>\<^verbatim>\<open>os.path.basename\<close>: what follows the last slash.\<close>

definition basename :: "path \<Rightarrow> path" where
  "basename p = rev (takeWhile (\<lambda>c. c \<noteq> CHR ''/'') (rev p))"

text \<open>
  \<^verbatim>\<open>os.path.dirname\<close>: the part up to and including the last slash, with its
  trailing slashes stripped unless it consists of slashes only.
\<close>

definition dirname :: "path \<Rightarrow> path" where
  "dirname p =
     (let head = rev (dropWhile (\<lambda>c. c \<noteq> CHR ''/'') (rev p))
      in if head \<noteq> [] \<and> \<not> list_all (\<lambda>c. c = CHR ''/'') head
         then rev (dropWhile (\<lambda>c. c = CHR ''/'') (rev head))
         else head)"

text \<open>
  \<^verbatim>\<open>os.path.join\<close> of two components: a second component that starts with a slash
  replaces the first one.
\<close>

definition join :: "path \<Rightarrow> path \<Rightarrow> path" where
  "join a b =
     (if take 1 b = ''/'' then b
      else if a = [] \<or> last a = CHR ''/'' then a @ b
      else a @ ''/'' @ b)"

text \<open>
  \<^verbatim>\<open>str.replace(old, new)\<close>: every occurrence of \<open>old\<close>, scanning from the left
  without overlap; an empty \<open>old\<close> matches between any two characters.
\<close>

function replace_from :: "string \<Rightarrow> string \<Rightarrow> string \<Rightarrow> string" where
  "replace_from old new [] = []"
| "replace_from old new (c # cs) =
     (if old \<noteq> [] \<and> take (length old) (c # cs) = old
      then new @ replace_from old new (drop (length old) (c # cs))
      else c # replace_from old new cs)"
  by pat_completeness auto
termination
  by (relation "measure (\<lambda>(old, new, s). length s)") auto

definition replace :: "string \<Rightarrow> string \<Rightarrow> string \<Rightarrow> string" where
  "replace s old new =
     (if old = [] then new @ concat (map (\<lambda>c. c # new) s) else replace_from old new s)"

text \<open>\<^verbatim>\<open>'{}'.format(n)\<close> for a non-negative integer: its decimal digits.\<close>

fun str_nat :: "nat \<Rightarrow> string" where
  "str_nat n =
     (if n < 10 then [''0123456789'' ! n]
      else str_nat (n div 10) @ [''0123456789'' ! (n mod 10)])"

declare str_nat.simps [simp del]

subsection \<open>Collaborators, events and errors\<close>

text \<open>
  The calls that leave the script are recorded in program order: directory creation,
  a forward pass of the network (with its input batch) and the writing of a wave file.
\<close>

datatype event = Makedirs path | Forward batch | WriteWav path wave

datatype error = WriteError path | ValueError | IndexError

text \<open>
  The collaborators: \<^verbatim>\<open>librosa.load\<close>, \<^verbatim>\<open>Path.glob\<close>, the loaded network,
  \<^verbatim>\<open>lowpass\<close>, the \<^verbatim>\<open>PreEmphasis\<close> module, the validation loader of
  \<^verbatim>\<open>voice_bank.get_datasets\<close> (its noisy and clean batches), and whether
  \<^verbatim>\<open>librosa.output.write_wav\<close> can write a destination.
\<close>

record env =
  decode :: "path \<Rightarrow> wave"
  glob_wav :: "path \<Rightarrow> path list"
  model :: "batch \<Rightarrow> batch"
  lowpass :: "wave \<Rightarrow> int \<Rightarrow> wave"
  preemp :: "batch \<Rightarrow> batch"
  valid_loader :: "path \<Rightarrow> nat \<Rightarrow> (batch \<times> batch) list"
  writable :: "path \<Rightarrow> bool"

type_synonym outcome = "error option \<times> event list"

text \<open>An exception ends the run: what follows is skipped, the events so far remain.\<close>

definition and_then :: "outcome \<Rightarrow> (event list \<Rightarrow> outcome) \<Rightarrow> outcome" where
  "and_then r f = (case r of (None, tr) \<Rightarrow> f tr | (Some er, tr) \<Rightarrow> (Some er, tr))"

definition write_wav :: "env \<Rightarrow> path \<Rightarrow> wave \<Rightarrow> event list \<Rightarrow> outcome" where
  "write_wav e p w tr =
     (if writable e p then (None, tr @ [WriteWav p w]) else (Some (WriteError p), tr))"

fun writes_of :: "event list \<Rightarrow> (path \<times> wave) list" where
  "writes_of [] = []"
| "writes_of (WriteWav p w # tr) = (p, w) # writes_of tr"
| "writes_of (ev # tr) = writes_of tr"

text \<open>
  \<^verbatim>\<open>inv_preemphasis\<close> on the result of \<^verbatim>\<open>squeeze\<close>: the filter runs along the
  last axis, and an array with no axis is rejected with a \<^verbatim>\<open>ValueError\<close>.
\<close>

definition inv_preemphasis_nd :: "ndarray \<Rightarrow> error + wave" where
  "inv_preemphasis_nd x =
     (case x of Scalar s \<Rightarrow> Inl ValueError | Vector w \<Rightarrow> Inr (inv_preemphasis w))"

subsection \<open>Single-file mode: run\<close>

text \<open>
  The wave is decoded and pre-emphasised, the network runs on the batch of this one
  wave, and \<^verbatim>\<open>out_wav[0]\<close> takes the first row of its output (an
  \<^verbatim>\<open>IndexError\<close> when there is none). \<^verbatim>\<open>if lowpass_freq:\<close> holds for a
  nonzero integer.
\<close>

definition run :: "env \<Rightarrow> path \<Rightarrow> path \<Rightarrow> int \<Rightarrow> outcome" where
  "run e audio_file out_path lowpass_freq =
     (let wav = preemphasis (decode e audio_file);
          tr = [Forward [wav]]
      in case model e [wav] of
           [] \<Rightarrow> (Some IndexError, tr)
         | out_wav # _ \<Rightarrow>
             (let out_wav1 = (if lowpass_freq \<noteq> 0 then lowpass e out_wav lowpass_freq
                              else out_wav)
              in write_wav e out_path (clip (inv_preemphasis out_wav1)) tr))"

text \<open>
  The order of the spec's post-processing contract, for comparison with \<open>run\<close>:
  de-emphasis first, then the optional low-pass, then clipping.
\<close>

definition spec_post_process :: "env \<Rightarrow> int \<Rightarrow> wave \<Rightarrow> wave" where
  "spec_post_process e lowpass_freq out_wav =
     (let w = inv_preemphasis out_wav;
          w1 = (if lowpass_freq \<noteq> 0 then lowpass e w lowpass_freq else w)
      in clip w1)"

subsection \<open>Validation mode: validate\<close>

text \<open>
  The first loop runs the network on every batch of the loader and appends to the three
  lists; the second loop enumerates the zipped lists (\<open>idx\<close>) and the zipped rows of
  each batch (\<open>in_idx\<close>) and writes three files per item.
\<close>

fun infer_loop ::
  "env \<Rightarrow> (batch \<times> batch) list \<Rightarrow> batch list \<Rightarrow> batch list \<Rightarrow> batch list \<Rightarrow> event list
    \<Rightarrow> batch list \<times> batch list \<times> batch list \<times> event list" where
  "infer_loop e [] noise_all clean_all results tr = (noise_all, clean_all, results, tr)"
| "infer_loop e ((noise, clean) # rest) noise_all clean_all results tr =
     (let noise1 = preemp e noise;
          clean_hat = model e noise1
      in infer_loop e rest (noise_all @ [noise1]) (clean_all @ [clean])
           (results @ [clean_hat]) (tr @ [Forward noise1]))"

fun write_items ::
  "env \<Rightarrow> path \<Rightarrow> nat \<Rightarrow> nat \<Rightarrow> nat \<Rightarrow> (wave \<times> wave \<times> wave) list \<Rightarrow> event list \<Rightarrow> outcome" where
  "write_items e out_dir batch_size idx in_idx [] tr = (None, tr)"
| "write_items e out_dir batch_size idx in_idx ((clean_hat, noise, clean) # rest) tr =
     (let noise_out_path = join out_dir (str_nat (idx * batch_size + in_idx) @ ''_noise.wav'');
          pred_out_path = join out_dir (str_nat (idx * batch_size + in_idx) @ ''_pred.wav'');
          clean_out_path = join out_dir (str_nat (idx * batch_size + in_idx) @ ''_clean.wav'')
      in and_then (write_wav e clean_out_path clean tr) (\<lambda>tr1.
         and_then (write_wav e noise_out_path (inv_preemphasis noise) tr1) (\<lambda>tr2.
         and_then (write_wav e pred_out_path (clip (inv_preemphasis clean_hat)) tr2) (\<lambda>tr3.
         write_items e out_dir batch_size idx (Suc in_idx) rest tr3))))"

fun write_batches ::
  "env \<Rightarrow> path \<Rightarrow> nat \<Rightarrow> nat \<Rightarrow> (batch \<times> batch \<times> batch) list \<Rightarrow> event list \<Rightarrow> outcome" where
  "write_batches e out_dir batch_size idx [] tr = (None, tr)"
| "write_batches e out_dir batch_size idx ((batch_clean_hat, batch_noise, batch_clean) # rest) tr =
     and_then
       (write_items e out_dir batch_size idx 0
          (zip batch_clean_hat (zip batch_noise batch_clean)) tr)
       (\<lambda>tr1. write_batches e out_dir batch_size (Suc idx) rest tr1)"

definition validate :: "env \<Rightarrow> path \<Rightarrow> path \<Rightarrow> nat \<Rightarrow> outcome" where
  "validate e meta_dir out_dir batch_size =
     (case infer_loop e (valid_loader e meta_dir batch_size) [] [] [] [Makedirs out_dir] of
        (noise_all, clean_all, results, tr) \<Rightarrow>
          write_batches e out_dir batch_size 0 (zip results (zip noise_all clean_all)) tr)"

subsection \<open>Directory mode: test_dir\<close>

text \<open>\<^verbatim>\<open>WaveDataset.__getitem__\<close>: the pre-emphasised wave and the length of the wave.\<close>

definition getitem :: "env \<Rightarrow> path \<Rightarrow> wave \<times> nat" where
  "getitem e p = (let wav = decode e p in (preemphasis wav, length wav))"

text \<open>
  Modelled from the spec: \<^verbatim>\<open>SpeechDataLoader.pad_collate_fn\<close> belongs to
  \<^verbatim>\<open>pytorch_sound\<close> and is not among the sources. The spec: a dense batch whose
  rows are the waves right-padded with zeros to the longest one, in input order, and
  the array of recorded lengths.
\<close>

definition max_len :: "wave list \<Rightarrow> nat" where
  "max_len ws = foldr (\<lambda>w m. max (length w) m) ws 0"

definition pad_collate_fn :: "(wave \<times> nat) list \<Rightarrow> batch \<times> nat list" where
  "pad_collate_fn items =
     (let L = max_len (map fst items)
      in (map (\<lambda>(w, n). w @ replicate (L - length w) 0) items, map snd items))"

text \<open>
  The batches of a \<^verbatim>\<open>DataLoader\<close> without shuffling: consecutive groups of
  \<open>batch_size\<close> items, the last one shorter when the items run out.
\<close>

function chunks :: "nat \<Rightarrow> 'a list \<Rightarrow> 'a list list" where
  "chunks n xs = (if n = 0 \<or> xs = [] then [] else take n xs # chunks n (drop n xs))"
  by pat_completeness auto
termination
  by (relation "measure (\<lambda>(n, xs). length xs)") auto

declare chunks.simps [simp del]

definition data_loader :: "env \<Rightarrow> path list \<Rightarrow> nat \<Rightarrow> (batch \<times> nat list) list" where
  "data_loader e wav_list batch_size =
     map pad_collate_fn (chunks batch_size (map (getitem e) wav_list))"

text \<open>\<^verbatim>\<open>range(0, stop, step)\<close> for a positive step.\<close>

definition py_range :: "nat \<Rightarrow> nat \<Rightarrow> nat list" where
  "py_range stop step = map (\<lambda>k. k * step) [0 ..< (stop + step - 1) div step]"

text \<open>
  One worker call: the destination is computed and its directory created, the row is
  truncated to \<open>l\<close> samples, squeezed, de-emphasised and written.
\<close>

definition test_worker ::
  "env \<Rightarrow> wave \<Rightarrow> path \<Rightarrow> path \<Rightarrow> path \<Rightarrow> nat \<Rightarrow> event list \<Rightarrow> outcome" where
  "test_worker e out_wav file_path in_dir out_dir l tr =
     (let sub_dir = replace (dirname file_path) in_dir [];
          file_out_dir = join out_dir sub_dir;
          tr1 = tr @ [Makedirs file_out_dir];
          out_file_path = join file_out_dir (basename file_path);
          out_wav1 = take l out_wav
      in case inv_preemphasis_nd (squeeze out_wav1) of
           Inl er \<Rightarrow> (Some er, tr1)
         | Inr out_wav2 \<Rightarrow> write_wav e out_file_path out_wav2 tr1)"

text \<open>
  The calls handed to \<^verbatim>\<open>joblib.Parallel\<close> for one batch, run in the order of the
  generator as a single worker does; an exception of a call ends the run. With more
  workers the same calls run concurrently, which is outside the model.
\<close>

fun parallel ::
  "env \<Rightarrow> path \<Rightarrow> path \<Rightarrow> (wave \<times> path \<times> nat) list \<Rightarrow> event list \<Rightarrow> outcome" where
  "parallel e in_dir out_dir [] tr = (None, tr)"
| "parallel e in_dir out_dir ((out_wav, file_path, l) # rest) tr =
     and_then (test_worker e out_wav file_path in_dir out_dir l tr)
       (\<lambda>tr1. parallel e in_dir out_dir rest tr1)"

text \<open>
  The generator of one iteration of the batch loop: the rows of the model output, the
  files \<^verbatim>\<open>wav_list[batch_idx:batch_idx + batch_size]\<close> and the recorded lengths,
  zipped.
\<close>

definition zipping_list ::
  "env \<Rightarrow> path list \<Rightarrow> nat \<Rightarrow> (batch \<times> nat list) \<times> nat \<Rightarrow> (wave \<times> path \<times> nat) list" where
  "zipping_list e wav_list batch_size x =
     (case x of (dp, batch_idx) \<Rightarrow>
        (let batch_wav = fst dp;
             lens = snd dp;
             batch_clean_hat = model e batch_wav
         in zip batch_clean_hat (zip (take batch_size (drop batch_idx wav_list)) lens)))"

fun batch_loop ::
  "env \<Rightarrow> path \<Rightarrow> path \<Rightarrow> path list \<Rightarrow> nat \<Rightarrow> ((batch \<times> nat list) \<times> nat) list \<Rightarrow> event list
    \<Rightarrow> outcome" where
  "batch_loop e in_dir out_dir wav_list batch_size [] tr = (None, tr)"
| "batch_loop e in_dir out_dir wav_list batch_size (x # rest) tr =
     and_then
       (parallel e in_dir out_dir (zipping_list e wav_list batch_size x)
          (tr @ [Forward (fst (fst x))]))
       (\<lambda>tr1. batch_loop e in_dir out_dir wav_list batch_size rest tr1)"

text \<open>
  The whole of directory mode. A \<^verbatim>\<open>DataLoader\<close> rejects a batch size that is
  not positive, before anything is created.
\<close>

definition test_dir :: "env \<Rightarrow> path \<Rightarrow> path \<Rightarrow> nat \<Rightarrow> outcome" where
  "test_dir e in_dir out_dir batch_size =
     (let wav_list = glob_wav e in_dir
      in if batch_size = 0 then (Some ValueError, [])
         else batch_loop e in_dir out_dir wav_list batch_size
                (zip (data_loader e wav_list batch_size) (py_range (length wav_list) batch_size))
                [Makedirs out_dir])"

subsection \<open>Notions used in the statements\<close>

text \<open>
  Writing a list of files in order and stopping at the first destination that cannot be
  written: both write loops of \<open>validate\<close> behave like this on the list of their files.
\<close>

fun write_seq :: "env \<Rightarrow> (path \<times> wave) list \<Rightarrow> event list \<Rightarrow> outcome" where
  "write_seq e [] tr = (None, tr)"
| "write_seq e ((p, w) # ws) tr = and_then (write_wav e p w tr) (\<lambda>tr1. write_seq e ws tr1)"

text \<open>
  The three files of one item of the validation write loop, in the order of the three
  \<^verbatim>\<open>write_wav\<close> calls (clean, noisy, predicted), the files of one batch, and the
  files of the whole loader.
\<close>

definition item_files :: "path \<Rightarrow> nat \<Rightarrow> nat \<Rightarrow> nat \<Rightarrow> wave \<times> wave \<times> wave \<Rightarrow> (path \<times> wave) list" where
  "item_files out_dir batch_size idx in_idx item =
     (case item of (clean_hat, noise, clean) \<Rightarrow>
       [(join out_dir (str_nat (idx * batch_size + in_idx) @ ''_clean.wav''), clean),
        (join out_dir (str_nat (idx * batch_size + in_idx) @ ''_noise.wav''), inv_preemphasis noise),
        (join out_dir (str_nat (idx * batch_size + in_idx) @ ''_pred.wav''), clip (inv_preemphasis clean_hat))])"

definition batch_files :: "path \<Rightarrow> nat \<Rightarrow> nat \<Rightarrow> batch \<times> batch \<times> batch \<Rightarrow> (path \<times> wave) list" where
  "batch_files out_dir bs idx b =
     (case b of (batch_clean_hat, batch_noise, batch_clean) \<Rightarrow>
        concat (map (\<lambda>(i, item). item_files out_dir bs idx i item)
          (enumerate 0 (zip batch_clean_hat (zip batch_noise batch_clean)))))"

definition triples :: "env \<Rightarrow> (batch \<times> batch) list \<Rightarrow> (batch \<times> batch \<times> batch) list" where
  "triples e loader = map (\<lambda>x. (model e (preemp e (fst x)), preemp e (fst x), snd x)) loader"

definition validate_plan :: "env \<Rightarrow> path \<Rightarrow> path \<Rightarrow> nat \<Rightarrow> (path \<times> wave) list" where
  "validate_plan e meta_dir out_dir bs =
     concat (map (\<lambda>(k, b). batch_files out_dir bs k b)
       (enumerate 0 (triples e (valid_loader e meta_dir bs))))"

text \<open>
  The items of one batch as the inner loop zips them: the rows of the model output, of the
  pre-emphasised noisy batch and of the clean batch. \<open>items_before\<close> counts the items of
  the batches before batch \<open>b\<close>.
\<close>

definition batch_items :: "env \<Rightarrow> batch \<times> batch \<Rightarrow> (wave \<times> wave \<times> wave) list" where
  "batch_items e x = zip (model e (preemp e (fst x))) (zip (preemp e (fst x)) (snd x))"

definition items_before :: "env \<Rightarrow> (batch \<times> batch) list \<Rightarrow> nat \<Rightarrow> nat" where
  "items_before e loader b = sum_list (map (\<lambda>x. length (batch_items e x)) (take b loader))"

text \<open>
  Directory mode. The destination \<open>test_worker\<close> computes for a file; the calls that
  \<open>test_dir\<close> hands to the worker pool, one triple per item in dispatch order; whether a
  call completes (the truncated row is not a single sample and the destination can be
  written); and the file a completed call writes.
\<close>

definition out_file_path :: "path \<Rightarrow> path \<Rightarrow> path \<Rightarrow> path" where
  "out_file_path in_dir out_dir file_path =
     join (join out_dir (replace (dirname file_path) in_dir [])) (basename file_path)"

definition job_ok :: "env \<Rightarrow> path \<Rightarrow> path \<Rightarrow> wave \<times> path \<times> nat \<Rightarrow> bool" where
  "job_ok e in_dir out_dir job =
     (case job of (out_wav, file_path, l) \<Rightarrow>
        length (take l out_wav) \<noteq> 1 \<and> writable e (out_file_path in_dir out_dir file_path))"

definition job_write :: "path \<Rightarrow> path \<Rightarrow> wave \<times> path \<times> nat \<Rightarrow> path \<times> wave" where
  "job_write in_dir out_dir job =
     (case job of (out_wav, file_path, l) \<Rightarrow>
        (out_file_path in_dir out_dir file_path, inv_preemphasis (take l out_wav)))"

definition test_dir_jobs :: "env \<Rightarrow> path \<Rightarrow> nat \<Rightarrow> (wave \<times> path \<times> nat) list" where
  "test_dir_jobs e in_dir batch_size =
     concat (map (zipping_list e (glob_wav e in_dir) batch_size)
       (zip (data_loader e (glob_wav e in_dir) batch_size)
            (py_range (length (glob_wav e in_dir)) batch_size)))"

definition chunk_jobs :: "env \<Rightarrow> path list \<Rightarrow> (wave \<times> path \<times> nat) list" where
  "chunk_jobs e W =
     zip (model e (fst (pad_collate_fn (map (getitem e) W))))
         (zip W (map (\<lambda>p. length (decode e p)) W))"

subsection \<open>Example collaborators\<close>

text \<open>
  A zero-phase low-pass filter for the examples: the symmetric three-tap smoother
  \<open>(x[n-1] + 2 x[n] + x[n+1]) / 4\<close>, with zeros beyond both ends. The cutoff frequency is
  not used.
\<close>

fun smooth_from :: "real \<Rightarrow> wave \<Rightarrow> wave" where
  "smooth_from prev [] = []"
| "smooth_from prev (x # xs) =
     ((prev + 2 * x + (case xs of [] \<Rightarrow> 0 | y # ys \<Rightarrow> y)) / 4) # smooth_from x xs"

definition smooth3 :: "wave \<Rightarrow> int \<Rightarrow> wave" where
  "smooth3 w frequency = smooth_from 0 w"

text \<open>
  An environment with an identity network, three decodable files, a loader of two
  batches and a file system that accepts every write; and variants of it: a network that
  doubles every sample, a directory with a one-sample file, a directory with a nested
  file, and a destination that cannot be written.
\<close>

definition demo_env :: env where
  "demo_env =
     \<lparr>decode = (\<lambda>p. if p = ''in/c.wav'' then [1 / 2]
                     else if p = ''in/a.wav'' then [3 / 4, 1 / 4]
                     else [1 / 10, 1 / 5, - (1 / 10)]),
      glob_wav = (\<lambda>d. [''in/a.wav'', ''in/b.wav'', ''in/d.wav'']),
      model = (\<lambda>b. b),
      lowpass = smooth3,
      preemp = map preemphasis,
      valid_loader = (\<lambda>d n. [([[1 / 2, 1 / 2], [0, 1]], [[3 / 2, 0], [1 / 4, 1 / 4]]),
                               ([[1]], [[1 / 5]])]),
      writable = (\<lambda>p. True)\<rparr>"

definition gain_env :: env where
  "gain_env = demo_env\<lparr>model := map (map (\<lambda>s. 2 * s))\<rparr>"

definition one_sample_env :: env where
  "one_sample_env = demo_env\<lparr>glob_wav := (\<lambda>d. [''in/a.wav'', ''in/c.wav'', ''in/b.wav''])\<rparr>"

definition nested_env :: env where
  "nested_env = demo_env\<lparr>glob_wav := (\<lambda>d. [''in/a.wav'', ''in/sub/b.wav''])\<rparr>"

definition readonly_env :: env where
  "readonly_env =
     demo_env\<lparr>glob_wav := (\<lambda>d. [''in/a.wav'', ''in/b.wav'', ''in/d.wav'', ''in/e.wav'']),
              writable := (\<lambda>p. p \<noteq> ''out/d.wav'')\<rparr>"

text \<open>The batch of the spec's collation example: three waves of lengths 5, 9 and 3.\<close>

definition spec_example_items :: "(wave \<times> nat) list" where
  "spec_example_items =
     [([1, 1, 1, 1, 1], 5), ([1, 1, 1, 1, 1, 1, 1, 1, 1], 9), ([1, 1, 1], 3)]"

section \<open>Properties\<close>

subsection \<open>Signal transform\<close>

lemma inv_filter_pre_filter: "inv_filter a p (pre_filter a p x) = x"
  by (induction x arbitrary: p) simp_all

lemma length_pre_filter: "length (pre_filter a p x) = length x"
  by (induction x arbitrary: p) simp_all

lemma length_inv_filter: "length (inv_filter a p y) = length y"
  by (induction y arbitrary: p) simp_all

lemma length_preemphasis: "length (preemphasis x) = length x"
  by (simp add: preemphasis_def pre_emphasis_def length_pre_filter)

lemma length_inv_preemphasis: "length (inv_preemphasis y) = length y"
  by (simp add: inv_preemphasis_def de_emphasis_def length_inv_filter)

lemma inv_preemphasis_preemphasis: "inv_preemphasis (preemphasis x) = x"
  by (simp add: inv_preemphasis_def preemphasis_def de_emphasis_def pre_emphasis_def
      inv_filter_pre_filter)

text \<open>
  Claim C1. For every finite waveform \<open>x\<close> and every coefficient \<open>a\<close> (so for each
  \<open>0 < a < 1\<close>, and for the fixed coefficient of the script), de-emphasis undoes
  pre-emphasis: \<open>de_emphasis (pre_emphasis x) = x\<close>, and likewise for the two library
  calls of the script. The equality is exact over the reals, hence within every tolerance.
\<close>

theorem C1_round_trip:
  "de_emphasis a (pre_emphasis a x) = x \<and> inv_preemphasis (preemphasis x) = x"
  by (simp add: de_emphasis_def pre_emphasis_def inv_filter_pre_filter
      inv_preemphasis_def preemphasis_def)

lemma clip_range: "s \<in> set (clip w) \<Longrightarrow> - 1 \<le> s \<and> s \<le> 1"
  by (auto simp: clip_def)

lemma clip_clamps: "clip w = map (\<lambda>s. if s < - 1 then - 1 else if 1 < s then 1 else s) w"
  by (auto simp: clip_def min_def max_def)

subsection \<open>Sequencing and traces\<close>

lemmas eval_defs =
  validate_def run_def test_dir_def test_worker_def write_wav_def join_def
  basename_def dirname_def replace_def squeeze_def inv_preemphasis_nd_def
  preemphasis_def inv_preemphasis_def pre_emphasis_def de_emphasis_def coeff_def clip_def
  getitem_def pad_collate_fn_def max_len_def data_loader_def py_range_def zipping_list_def
  chunks.simps str_nat.simps smooth3_def Let_def

lemma and_then_None [simp]: "and_then (None, tr) f = f tr"
  by (simp add: and_then_def)

lemma and_then_Some [simp]: "and_then (Some er, tr) f = (Some er, tr)"
  by (simp add: and_then_def)

lemma fst_and_then: "fst (and_then r f) = (if fst r = None then fst (f (snd r)) else fst r)"
  by (cases r; cases "fst r") (auto simp: and_then_def)

lemma snd_and_then: "snd (and_then r f) = (if fst r = None then snd (f (snd r)) else snd r)"
  by (cases r; cases "fst r") (auto simp: and_then_def)

lemma write_seq_Cons:
  "write_seq e ((p, w) # ws) = (\<lambda>tr. and_then (write_wav e p w tr) (write_seq e ws))"
  by (rule ext) simp

lemma write_seq_append:
  "write_seq e (xs @ ys) tr = and_then (write_seq e xs tr) (\<lambda>tr1. write_seq e ys tr1)"
proof (induction xs arbitrary: tr)
  case Nil
  show ?case by simp
next
  case (Cons x xs)
  obtain p w where x: "x = (p, w)" by (cases x)
  show ?case
    by (cases "writable e p") (simp_all add: x write_wav_def Cons.IH)
qed

lemma write_seq_trace:
  "snd (write_seq e ws tr) = tr @ map (\<lambda>(p, w). WriteWav p w) (takeWhile (\<lambda>x. writable e (fst x)) ws)"
proof (induction ws arbitrary: tr)
  case Nil
  show ?case by simp
next
  case (Cons x ws)
  obtain p w where x: "x = (p, w)" by (cases x)
  show ?case by (simp add: x write_wav_def Cons.IH)
qed

lemma write_seq_ok:
  "fst (write_seq e ws tr) = None \<longleftrightarrow> list_all (\<lambda>x. writable e (fst x)) ws"
proof (induction ws arbitrary: tr)
  case Nil
  show ?case by simp
next
  case (Cons x ws)
  obtain p w where x: "x = (p, w)" by (cases x)
  show ?case by (simp add: x write_wav_def Cons.IH)
qed

lemma writes_of_append: "writes_of (tr1 @ tr2) = writes_of tr1 @ writes_of tr2"
proof (induction tr1)
  case Nil
  show ?case by simp
next
  case (Cons ev tr1)
  then show ?case by (cases ev) simp_all
qed

lemma writes_of_Forward: "writes_of (map (\<lambda>x. Forward (f x)) xs) = []"
  by (induction xs) simp_all

lemma writes_of_WriteWav: "writes_of (map (\<lambda>(p, w). WriteWav p w) ws) = ws"
  by (induction ws) auto

subsection \<open>Lists\<close>

lemma zip3_map: "zip (map f xs) (zip (map g xs) (map h xs)) = map (\<lambda>x. (f x, g x, h x)) xs"
  by (induction xs) simp_all

lemma zip_map_upt:
  "zip (map f xs) (map g [0..<length xs]) = map (\<lambda>k. (f (xs ! k), g k)) [0..<length xs]"
  by (rule nth_equalityI) simp_all

lemma enumerate_map_nth:
  "map (\<lambda>(i, x). f i x) (enumerate n xs) = map (\<lambda>i. f (n + i) (xs ! i)) [0..<length xs]"
  by (rule nth_equalityI) (simp_all add: nth_enumerate_eq)

lemma takeWhile_append_all:
  "takeWhile P (xs @ ys) = (if list_all P xs then xs @ takeWhile P ys else takeWhile P xs)"
  by (induction xs) simp_all

lemma length_concat_uniform:
  assumes "\<And>x. length (f x) = m"
  shows "length (concat (map f xs)) = m * length xs"
  by (induction xs) (simp_all add: assms)

lemma concat_nth_block:
  assumes "b < length xss" "i < length (xss ! b)"
  shows "sum_list (map length (take b xss)) + i < length (concat xss) \<and>
         concat xss ! (sum_list (map length (take b xss)) + i) = xss ! b ! i"
  using assms
proof (induction xss arbitrary: b)
  case Nil
  then show ?case by simp
next
  case (Cons xs xss)
  show ?case
  proof (cases b)
    case 0
    with Cons.prems show ?thesis by (simp add: nth_append)
  next
    case (Suc b')
    with Cons.prems have "b' < length xss" "i < length (xss ! b')" by simp_all
    from Cons.IH[OF this] show ?thesis by (simp add: Suc nth_append)
  qed
qed

lemma concat_nth_uniform:
  assumes "k < length xs" "\<And>x. length (f x) = m" "j < m"
  shows "m * k + j < length (concat (map f xs)) \<and> concat (map f xs) ! (m * k + j) = f (xs ! k) ! j"
  using assms(1)
proof (induction xs arbitrary: k)
  case Nil
  then show ?case by simp
next
  case (Cons x xs)
  show ?case
  proof (cases k)
    case 0
    with assms(2,3) show ?thesis by (simp add: nth_append)
  next
    case (Suc k')
    with Cons.prems have "k' < length xs" by simp
    from Cons.IH[OF this] assms(2)[of x] show ?thesis
      by (simp add: Suc nth_append algebra_simps)
  qed
qed


subsection \<open>Validation mode\<close>

text \<open>The two loops of \<open>validate\<close> in closed form.\<close>

lemma infer_loop_eq:
  "infer_loop e loader na ca rs tr =
     (na @ map (\<lambda>x. preemp e (fst x)) loader, ca @ map snd loader,
      rs @ map (\<lambda>x. model e (preemp e (fst x))) loader,
      tr @ map (\<lambda>x. Forward (preemp e (fst x))) loader)"
  by (induction loader arbitrary: na ca rs tr) (auto simp: Let_def)

lemma write_items_seq:
  "write_items e out_dir bs idx in_idx items tr =
     write_seq e (concat (map (\<lambda>(i, item). item_files out_dir bs idx i item) (enumerate in_idx items))) tr"
proof (induction items arbitrary: in_idx tr)
  case Nil
  show ?case by simp
next
  case (Cons item items)
  obtain clean_hat noise clean where it: "item = (clean_hat, noise, clean)" by (cases item)
  have IH: "write_items e out_dir bs idx (Suc in_idx) items =
      write_seq e (concat (map (\<lambda>(i, item). item_files out_dir bs idx i item)
        (enumerate (Suc in_idx) items)))"
    by (rule ext) (rule Cons.IH)
  show ?case
    by (simp add: it item_files_def IH write_seq_Cons)
qed

lemma write_batches_seq:
  "write_batches e out_dir bs idx bl tr =
     write_seq e (concat (map (\<lambda>(k, b). batch_files out_dir bs k b) (enumerate idx bl))) tr"
proof (induction bl arbitrary: idx tr)
  case Nil
  show ?case by simp
next
  case (Cons b bl)
  obtain h n c where b: "b = (h, n, c)" by (cases b)
  have IH: "write_batches e out_dir bs (Suc idx) bl =
      write_seq e (concat (map (\<lambda>(k, b). batch_files out_dir bs k b) (enumerate (Suc idx) bl)))"
    by (rule ext) (rule Cons.IH)
  show ?case
    by (simp add: b batch_files_def write_items_seq write_seq_append IH)
qed

lemma validate_eq:
  "validate e meta_dir out_dir bs =
     write_seq e (validate_plan e meta_dir out_dir bs)
       (Makedirs out_dir # map (\<lambda>x. Forward (preemp e (fst x))) (valid_loader e meta_dir bs))"
  by (simp add: validate_def infer_loop_eq zip3_map write_batches_seq validate_plan_def triples_def)

lemma validate_trace:
  "snd (validate e meta_dir out_dir bs) =
     Makedirs out_dir # map (\<lambda>x. Forward (preemp e (fst x))) (valid_loader e meta_dir bs) @
     map (\<lambda>(p, w). WriteWav p w)
       (takeWhile (\<lambda>x. writable e (fst x)) (validate_plan e meta_dir out_dir bs))"
  by (simp add: validate_eq write_seq_trace)

lemma validate_writes:
  "writes_of (snd (validate e meta_dir out_dir bs)) =
     takeWhile (\<lambda>x. writable e (fst x)) (validate_plan e meta_dir out_dir bs)"
  by (simp add: validate_trace writes_of_append writes_of_Forward writes_of_WriteWav)

lemma validate_writes_ok:
  assumes "fst (validate e meta_dir out_dir bs) = None"
  shows "writes_of (snd (validate e meta_dir out_dir bs)) = validate_plan e meta_dir out_dir bs"
proof -
  have "list_all (\<lambda>x. writable e (fst x)) (validate_plan e meta_dir out_dir bs)"
    using assms by (simp add: validate_eq write_seq_ok)
  then have "takeWhile (\<lambda>x. writable e (fst x)) (validate_plan e meta_dir out_dir bs) =
      validate_plan e meta_dir out_dir bs"
    by (simp add: takeWhile_eq_all_conv list_all_iff)
  then show ?thesis by (simp add: validate_writes)
qed

text \<open>Where the files of item \<open>i\<close> of batch \<open>b\<close> stand in the list of all files.\<close>

lemma length_item_files: "length (item_files out_dir bs idx i item) = 3"
  by (cases item) (simp add: item_files_def)

lemma batch_files_items:
  "batch_files out_dir bs k (model e (preemp e (fst x)), preemp e (fst x), snd x) =
     concat (map (\<lambda>(i, item). item_files out_dir bs k i item) (enumerate 0 (batch_items e x)))"
  by (simp add: batch_files_def batch_items_def)

lemma length_batch_files:
  "length (batch_files out_dir bs k (model e (preemp e (fst x)), preemp e (fst x), snd x)) =
     3 * length (batch_items e x)"
proof -
  have "\<And>y. length ((\<lambda>(i, item). item_files out_dir bs k i item) y) = 3"
    by (simp add: split_def length_item_files)
  from length_concat_uniform[of "\<lambda>(i, item). item_files out_dir bs k i item" 3, OF this]
  show ?thesis by (simp add: batch_files_items)
qed

lemma batch_files_nth:
  assumes "i < length (batch_items e x)" "j < 3"
  shows "batch_files out_dir bs k (model e (preemp e (fst x)), preemp e (fst x), snd x) ! (3 * i + j) =
           item_files out_dir bs k i (batch_items e x ! i) ! j"
proof -
  have len: "\<And>y. length ((\<lambda>(i, item). item_files out_dir bs k i item) y) = 3"
    by (simp add: split_def length_item_files)
  have "i < length (enumerate 0 (batch_items e x))" using assms(1) by simp
  from concat_nth_uniform[of i "enumerate 0 (batch_items e x)"
      "\<lambda>(i, item). item_files out_dir bs k i item" 3 j, OF this len assms(2)]
  show ?thesis using assms(1) by (simp add: batch_files_items nth_enumerate_eq)
qed

lemma batch_items_nth:
  assumes "i < length (batch_items e x)"
  shows "batch_items e x ! i = (model e (preemp e (fst x)) ! i, preemp e (fst x) ! i, snd x ! i)"
  using assms by (simp add: batch_items_def)

lemma validate_plan_blocks:
  "validate_plan e meta_dir out_dir bs =
     concat (map (\<lambda>b. batch_files out_dir bs b
        (model e (preemp e (fst (valid_loader e meta_dir bs ! b))),
         preemp e (fst (valid_loader e meta_dir bs ! b)), snd (valid_loader e meta_dir bs ! b)))
       [0..<length (valid_loader e meta_dir bs)])"
proof -
  have "map (\<lambda>(k, b). batch_files out_dir bs k b) (enumerate 0 (triples e (valid_loader e meta_dir bs))) =
        map (\<lambda>k. batch_files out_dir bs (0 + k) (triples e (valid_loader e meta_dir bs) ! k))
          [0..<length (triples e (valid_loader e meta_dir bs))]"
    by (rule enumerate_map_nth)
  also have "\<dots> = map (\<lambda>b. batch_files out_dir bs b
        (model e (preemp e (fst (valid_loader e meta_dir bs ! b))),
         preemp e (fst (valid_loader e meta_dir bs ! b)), snd (valid_loader e meta_dir bs ! b)))
       [0..<length (valid_loader e meta_dir bs)]"
    by (simp add: triples_def)
  finally show ?thesis by (simp add: validate_plan_def)
qed

lemma validate_plan_nth:
  assumes "b < length (valid_loader e meta_dir bs)"
    and "i < length (batch_items e (valid_loader e meta_dir bs ! b))"
    and "j < 3"
  shows "3 * (items_before e (valid_loader e meta_dir bs) b + i) + j
           < length (validate_plan e meta_dir out_dir bs) \<and>
         validate_plan e meta_dir out_dir bs ! (3 * (items_before e (valid_loader e meta_dir bs) b + i) + j) =
           item_files out_dir bs b i (batch_items e (valid_loader e meta_dir bs ! b) ! i) ! j"
proof -
  define loader where "loader = valid_loader e meta_dir bs"
  define blk where "blk = (\<lambda>b. batch_files out_dir bs b
        (model e (preemp e (fst (loader ! b))), preemp e (fst (loader ! b)), snd (loader ! b)))"
  define blocks where "blocks = map blk [0..<length loader]"
  have plan: "validate_plan e meta_dir out_dir bs = concat blocks"
    by (simp add: validate_plan_blocks blocks_def blk_def loader_def)
  have b: "b < length blocks" using assms(1) by (simp add: blocks_def loader_def)
  have blen: "\<And>k. k < length loader \<Longrightarrow> length (blocks ! k) = 3 * length (batch_items e (loader ! k))"
    by (simp add: blocks_def blk_def length_batch_files)
  have i: "3 * i + j < length (blocks ! b)"
    using assms blen[of b] by (simp add: loader_def)
  have "map length (take b blocks) = map (\<lambda>x. 3 * length (batch_items e x)) (take b loader)"
  proof (rule nth_equalityI)
    show "length (map length (take b blocks)) = length (map (\<lambda>x. 3 * length (batch_items e x)) (take b loader))"
      by (simp add: blocks_def)
  next
    fix k assume "k < length (map length (take b blocks))"
    then have k: "k < b" "k < length loader" by (simp_all add: blocks_def)
    then show "map length (take b blocks) ! k = map (\<lambda>x. 3 * length (batch_items e x)) (take b loader) ! k"
      using blen[of k] b by (simp add: blocks_def)
  qed
  then have "sum_list (map length (take b blocks)) = 3 * items_before e loader b"
    by (simp add: items_before_def sum_list_const_mult comp_def)
  moreover from concat_nth_block[OF b i]
  have "sum_list (map length (take b blocks)) + (3 * i + j) < length (concat blocks) \<and>
        concat blocks ! (sum_list (map length (take b blocks)) + (3 * i + j)) = blocks ! b ! (3 * i + j)" .
  moreover have "blocks ! b ! (3 * i + j) = item_files out_dir bs b i (batch_items e (loader ! b) ! i) ! j"
    using assms batch_files_nth[of i e "loader ! b" j out_dir bs b]
    by (simp add: blocks_def blk_def loader_def)
  ultimately show ?thesis
    by (simp add: plan loader_def algebra_simps)
qed


lemma validate_demo_ok: "fst (validate demo_env ''meta'' ''out'' 2) = None"
  by (simp add: validate_eq write_seq_ok demo_env_def list_all_iff)

text \<open>
  Claim C8. In a run of validation mode that completes, the files written are, for every
  batch \<open>batch_index\<close> of the loader (counted from 0) and every item \<open>item_index\<close> of
  that batch, exactly three files of \<open>out_dir\<close>, named \<open><idx>_clean.wav\<close>,
  \<open><idx>_noise.wav\<close> and \<open><idx>_pred.wav\<close> with
  \<open>idx = batch_index * batch_size + item_index\<close> for the configured \<open>batch_size\<close>, in
  the order of the loops.
\<close>

theorem C8_validate_file_names:
  assumes "fst (validate e meta_dir out_dir batch_size) = None"
  shows "map fst (writes_of (snd (validate e meta_dir out_dir batch_size))) =
           concat (map (\<lambda>batch_index.
             concat (map (\<lambda>item_index.
               [join out_dir (str_nat (batch_index * batch_size + item_index) @ ''_clean.wav''),
                join out_dir (str_nat (batch_index * batch_size + item_index) @ ''_noise.wav''),
                join out_dir (str_nat (batch_index * batch_size + item_index) @ ''_pred.wav'')])
               [0..<length (batch_items e (valid_loader e meta_dir batch_size ! batch_index))]))
             [0..<length (valid_loader e meta_dir batch_size)])"
proof -
  have blk: "map fst (batch_files out_dir batch_size k (model e (preemp e (fst x)), preemp e (fst x), snd x)) =
      concat (map (\<lambda>i.
               [join out_dir (str_nat (k * batch_size + i) @ ''_clean.wav''),
                join out_dir (str_nat (k * batch_size + i) @ ''_noise.wav''),
                join out_dir (str_nat (k * batch_size + i) @ ''_pred.wav'')])
               [0..<length (batch_items e x)])" for k x
  proof -
    have "map (\<lambda>(i, item). map fst (item_files out_dir batch_size k i item)) (enumerate 0 (batch_items e x)) =
          map (\<lambda>i. map fst (item_files out_dir batch_size k (0 + i) (batch_items e x ! i)))
            [0..<length (batch_items e x)]"
      by (rule enumerate_map_nth)
    then show ?thesis
      by (simp add: batch_files_items map_concat comp_def split_def item_files_def)
  qed
  show ?thesis
    by (simp add: validate_writes_ok[OF assms] validate_plan_blocks map_concat comp_def blk)
qed

theorem C8_validate_file_names_witness:
  "fst (validate demo_env ''meta'' ''out'' 2) = None \<and>
   map fst (writes_of (snd (validate demo_env ''meta'' ''out'' 2))) =
     [''out/0_clean.wav'', ''out/0_noise.wav'', ''out/0_pred.wav'',
      ''out/1_clean.wav'', ''out/1_noise.wav'', ''out/1_pred.wav'',
      ''out/2_clean.wav'', ''out/2_noise.wav'', ''out/2_pred.wav'']"
proof -
  have ok: "fst (validate demo_env ''meta'' ''out'' 2) = None"
    by (simp add: validate_eq write_seq_ok demo_env_def list_all_iff)
  from C8_validate_file_names[OF ok] show ?thesis
    using ok
    by (simp add: demo_env_def batch_items_def join_def str_nat.simps upt_rec[of 0])
qed


text \<open>
  Claim C9. In a run of validation mode that completes, the first of the three files of
  item \<open>item_index\<close> of batch \<open>batch_index\<close> is \<open><idx>_clean.wav\<close> and holds the
  clean row exactly as the loader yielded it: no pre-emphasis, de-emphasis, truncation or
  clipping is applied to it.
\<close>

theorem C9_clean_written_as_yielded:
  assumes "fst (validate e meta_dir out_dir batch_size) = None"
    and "batch_index < length (valid_loader e meta_dir batch_size)"
    and "item_index < length (batch_items e (valid_loader e meta_dir batch_size ! batch_index))"
  shows "writes_of (snd (validate e meta_dir out_dir batch_size)) !
           (3 * (items_before e (valid_loader e meta_dir batch_size) batch_index + item_index)) =
         (join out_dir (str_nat (batch_index * batch_size + item_index) @ ''_clean.wav''),
          snd (valid_loader e meta_dir batch_size ! batch_index) ! item_index)"
proof -
  from validate_plan_nth[OF assms(2,3), of 0 out_dir]
  have "validate_plan e meta_dir out_dir batch_size !
          (3 * (items_before e (valid_loader e meta_dir batch_size) batch_index + item_index)) =
        item_files out_dir batch_size batch_index item_index
          (batch_items e (valid_loader e meta_dir batch_size ! batch_index) ! item_index) ! 0"
    by simp
  then show ?thesis
    by (simp add: validate_writes_ok[OF assms(1)] batch_items_nth[OF assms(3)] item_files_def)
qed

theorem C9_clean_written_as_yielded_witness:
  "fst (validate demo_env ''meta'' ''out'' 2) = None \<and>
   (1::nat) < length (valid_loader demo_env ''meta'' 2) \<and>
   (0::nat) < length (batch_items demo_env (valid_loader demo_env ''meta'' 2 ! 1)) \<and>
   writes_of (snd (validate demo_env ''meta'' ''out'' 2)) ! 6 = (''out/2_clean.wav'', [1 / 5])"
proof -
  have b: "(1::nat) < length (valid_loader demo_env ''meta'' 2)"
    by (simp add: demo_env_def)
  have i: "(0::nat) < length (batch_items demo_env (valid_loader demo_env ''meta'' 2 ! 1))"
    by (simp add: demo_env_def batch_items_def)
  have pos: "3 * (items_before demo_env (valid_loader demo_env ''meta'' 2) 1 + 0) = 6"
    by (simp add: demo_env_def items_before_def batch_items_def)
  have name: "join ''out'' (str_nat (1 * 2 + 0) @ ''_clean.wav'') = ''out/2_clean.wav''"
    by (simp add: join_def str_nat.simps)
  have row: "snd (valid_loader demo_env ''meta'' 2 ! 1) ! 0 = [1 / 5]"
    by (simp add: demo_env_def)
  from C9_clean_written_as_yielded[OF validate_demo_ok b i]
  have "writes_of (snd (validate demo_env ''meta'' ''out'' 2)) ! 6 = (''out/2_clean.wav'', [1 / 5])"
    unfolding pos name row .
  with validate_demo_ok b i show ?thesis by blast
qed


text \<open>
  Claim C10. In validation mode the inference loop accumulates, for every batch of the
  loader, the pre-emphasised noisy batch, the clean batch and the predicted batch, and
  only runs the network; the write loop starts from these complete lists after the last
  forward pass. So the trace is the creation of \<open>out_dir\<close>, then one forward pass
  for every batch of the loader, then only writes: no file is written before inference
  has finished on every batch.
\<close>

theorem C10_writes_after_all_inference:
  "infer_loop e (valid_loader e meta_dir batch_size) [] [] [] [Makedirs out_dir] =
     (map (\<lambda>x. preemp e (fst x)) (valid_loader e meta_dir batch_size),
      map snd (valid_loader e meta_dir batch_size),
      map (\<lambda>x. model e (preemp e (fst x))) (valid_loader e meta_dir batch_size),
      Makedirs out_dir #
      map (\<lambda>x. Forward (preemp e (fst x))) (valid_loader e meta_dir batch_size)) \<and>
   validate e meta_dir out_dir batch_size =
     write_batches e out_dir batch_size 0
       (zip (map (\<lambda>x. model e (preemp e (fst x))) (valid_loader e meta_dir batch_size))
         (zip (map (\<lambda>x. preemp e (fst x)) (valid_loader e meta_dir batch_size))
           (map snd (valid_loader e meta_dir batch_size))))
       (Makedirs out_dir #
        map (\<lambda>x. Forward (preemp e (fst x))) (valid_loader e meta_dir batch_size)) \<and>
   snd (validate e meta_dir out_dir batch_size) =
     Makedirs out_dir #
     map (\<lambda>x. Forward (preemp e (fst x))) (valid_loader e meta_dir batch_size) @
     map (\<lambda>(p, w). WriteWav p w) (writes_of (snd (validate e meta_dir out_dir batch_size)))"
proof (intro conjI)
  show "infer_loop e (valid_loader e meta_dir batch_size) [] [] [] [Makedirs out_dir] =
     (map (\<lambda>x. preemp e (fst x)) (valid_loader e meta_dir batch_size),
      map snd (valid_loader e meta_dir batch_size),
      map (\<lambda>x. model e (preemp e (fst x))) (valid_loader e meta_dir batch_size),
      Makedirs out_dir #
      map (\<lambda>x. Forward (preemp e (fst x))) (valid_loader e meta_dir batch_size))"
    by (simp add: infer_loop_eq)
  then show "validate e meta_dir out_dir batch_size =
     write_batches e out_dir batch_size 0
       (zip (map (\<lambda>x. model e (preemp e (fst x))) (valid_loader e meta_dir batch_size))
         (zip (map (\<lambda>x. preemp e (fst x)) (valid_loader e meta_dir batch_size))
           (map snd (valid_loader e meta_dir batch_size))))
       (Makedirs out_dir #
        map (\<lambda>x. Forward (preemp e (fst x))) (valid_loader e meta_dir batch_size))"
    by (simp add: validate_def)
  have "snd (validate e meta_dir out_dir batch_size) =
      Makedirs out_dir #
      map (\<lambda>x. Forward (preemp e (fst x))) (valid_loader e meta_dir batch_size) @
      map (\<lambda>(p, w). WriteWav p w)
        (takeWhile (\<lambda>x. writable e (fst x)) (validate_plan e meta_dir out_dir batch_size))"
    by (rule validate_trace)
  also have "takeWhile (\<lambda>x. writable e (fst x)) (validate_plan e meta_dir out_dir batch_size) =
      writes_of (snd (validate e meta_dir out_dir batch_size))"
    by (rule validate_writes[symmetric])
  finally show "snd (validate e meta_dir out_dir batch_size) =
     Makedirs out_dir #
     map (\<lambda>x. Forward (preemp e (fst x))) (valid_loader e meta_dir batch_size) @
     map (\<lambda>(p, w). WriteWav p w) (writes_of (snd (validate e meta_dir out_dir batch_size)))" .
qed

subsection \<open>Clipping of what is written\<close>

text \<open>
  In validation mode the third file of an item, \<open><idx>_pred.wav\<close>, holds the clipped
  de-emphasised row of the model output, and the second one, \<open><idx>_noise.wav\<close>,
  holds the de-emphasised noisy row as it is.
\<close>

lemma validate_pred_file:
  assumes "fst (validate e meta_dir out_dir batch_size) = None"
    and "batch_index < length (valid_loader e meta_dir batch_size)"
    and "item_index < length (batch_items e (valid_loader e meta_dir batch_size ! batch_index))"
  shows "writes_of (snd (validate e meta_dir out_dir batch_size)) !
           (3 * (items_before e (valid_loader e meta_dir batch_size) batch_index + item_index) + 2) =
         (join out_dir (str_nat (batch_index * batch_size + item_index) @ ''_pred.wav''),
          clip (inv_preemphasis
            (model e (preemp e (fst (valid_loader e meta_dir batch_size ! batch_index))) !
               item_index)))"
proof -
  from validate_plan_nth[OF assms(2,3), of 2 out_dir]
  have "validate_plan e meta_dir out_dir batch_size !
          (3 * (items_before e (valid_loader e meta_dir batch_size) batch_index + item_index) + 2) =
        item_files out_dir batch_size batch_index item_index
          (batch_items e (valid_loader e meta_dir batch_size ! batch_index) ! item_index) ! 2"
    by simp
  then show ?thesis
    by (simp add: validate_writes_ok[OF assms(1)] batch_items_nth[OF assms(3)] item_files_def)
qed

lemma validate_noise_file:
  assumes "fst (validate e meta_dir out_dir batch_size) = None"
    and "batch_index < length (valid_loader e meta_dir batch_size)"
    and "item_index < length (batch_items e (valid_loader e meta_dir batch_size ! batch_index))"
  shows "writes_of (snd (validate e meta_dir out_dir batch_size)) !
           (3 * (items_before e (valid_loader e meta_dir batch_size) batch_index + item_index) + 1) =
         (join out_dir (str_nat (batch_index * batch_size + item_index) @ ''_noise.wav''),
          inv_preemphasis
            (preemp e (fst (valid_loader e meta_dir batch_size ! batch_index)) ! item_index))"
proof -
  from validate_plan_nth[OF assms(2,3), of 1 out_dir]
  have "validate_plan e meta_dir out_dir batch_size !
          (3 * (items_before e (valid_loader e meta_dir batch_size) batch_index + item_index) + 1) =
        item_files out_dir batch_size batch_index item_index
          (batch_items e (valid_loader e meta_dir batch_size ! batch_index) ! item_index) ! 1"
    by simp
  then show ?thesis
    by (simp add: validate_writes_ok[OF assms(1)] batch_items_nth[OF assms(3)] item_files_def)
qed

text \<open>
  Claim C3. Every waveform persisted by any of the three modes should have every sample
  in \<open>[-1, 1]\<close>, samples outside the range after de-emphasis being clamped before the
  write. Directory mode breaks it: \<open>test_worker\<close> writes the de-emphasised row with no
  clipping, where \<open>run\<close> and the predicted file of \<open>validate\<close> clip. With a network
  that doubles every sample and the file \<open>in/a.wav\<close> holding \<open>[3/4, 1/4]\<close>,
  directory mode writes \<open>[3/2, 1/2]\<close> to \<open>out/a.wav\<close>, while single-file mode
  writes the clamped \<open>[1, 1/2]\<close> for the same file and network.
\<close>

theorem C3_directory_mode_not_clipped:
  "test_dir gain_env ''in'' ''out'' 2 =
     (None,
      [Makedirs ''out'',
       Forward [[3 / 4, - (191 / 400), 0], [1 / 10, 103 / 1000, - (147 / 500)]],
       Makedirs ''out/'', WriteWav ''out/a.wav'' [3 / 2, 1 / 2],
       Makedirs ''out/'', WriteWav ''out/b.wav'' [1 / 5, 2 / 5, - (1 / 5)],
       Forward [[1 / 10, 103 / 1000, - (147 / 500)]],
       Makedirs ''out/'', WriteWav ''out/d.wav'' [1 / 5, 2 / 5, - (1 / 5)]]) \<and>
   run gain_env ''in/a.wav'' ''out.wav'' 0 =
     (None, [Forward [[3 / 4, - (191 / 400)]], WriteWav ''out.wav'' [1, 1 / 2]]) \<and>
   \<not> (3 / 2 :: real) \<le> 1"
  by (simp add: gain_env_def demo_env_def eval_defs)

subsection \<open>Single-file mode\<close>

text \<open>
  Claim C5, as stated: de-emphasis is applied to the model output before the optional
  low-pass. The script applies the low-pass first. For a filter that does not commute
  with de-emphasis, such as the zero-phase smoother \<open>smooth3\<close>, the two orders write
  different samples: \<open>run\<close> writes \<open>[409/1600, 31473/160000]\<close> where the order of the
  claim gives \<open>[7/16, 5/16]\<close>.
\<close>

theorem C5_counterexample:
  "writes_of (snd (run demo_env ''in/a.wav'' ''out.wav'' 8000)) =
     [(''out.wav'', [409 / 1600, 31473 / 160000])] \<and>
   model demo_env [preemphasis (decode demo_env ''in/a.wav'')] = [[3 / 4, - (191 / 400)]] \<and>
   spec_post_process demo_env 8000 [3 / 4, - (191 / 400)] = [7 / 16, 5 / 16]"
  by (simp add: demo_env_def eval_defs spec_post_process_def)

text \<open>
  Claim C5, amended. In single-file mode the optional low-pass (applied only when
  \<open>lowpass_freq\<close> is nonzero) is applied to the model output first, de-emphasis is
  applied to its result, and clipping comes last, on what is written.
\<close>

theorem C5_lowpass_before_de_emphasis:
  assumes "model e [preemphasis (decode e audio_file)] = out_wav # rest"
    and "writable e out_path"
  shows "run e audio_file out_path lowpass_freq =
           (None,
            [Forward [preemphasis (decode e audio_file)],
             WriteWav out_path
               (clip (inv_preemphasis
                  (if lowpass_freq \<noteq> 0 then lowpass e out_wav lowpass_freq else out_wav)))])"
  using assms by (simp add: run_def write_wav_def Let_def)



theorem C5_lowpass_before_de_emphasis_witness:
  "model demo_env [preemphasis (decode demo_env ''in/a.wav'')] = [[3 / 4, - (191 / 400)]] \<and>
   writable demo_env ''out.wav'' \<and>
   run demo_env ''in/a.wav'' ''out.wav'' 8000 =
     (None, [Forward [[3 / 4, - (191 / 400)]], WriteWav ''out.wav'' [409 / 1600, 31473 / 160000]])"
proof -
  have m: "model demo_env [preemphasis (decode demo_env ''in/a.wav'')] = [3 / 4, - (191 / 400)] # []"
    by (simp add: demo_env_def eval_defs)
  have w: "writable demo_env ''out.wav''"
    by (simp add: demo_env_def)
  have p: "preemphasis (decode demo_env ''in/a.wav'') = [3 / 4, - (191 / 400)]"
    by (simp add: demo_env_def eval_defs)
  have v: "clip (inv_preemphasis (if (8000::int) \<noteq> 0 then lowpass demo_env [3 / 4, - (191 / 400)] 8000
             else [3 / 4, - (191 / 400)])) = [409 / 1600, 31473 / 160000]"
    by (simp add: demo_env_def eval_defs)
  from C5_lowpass_before_de_emphasis[OF m w, of 8000]
  have "run demo_env ''in/a.wav'' ''out.wav'' 8000 =
     (None, [Forward [[3 / 4, - (191 / 400)]], WriteWav ''out.wav'' [409 / 1600, 31473 / 160000]])"
    unfolding p v .
  with m w show ?thesis by simp
qed

subsection \<open>Directory mode\<close>

text \<open>One worker call, the calls of a batch, and the loop over the batches, in closed form.\<close>

lemma squeeze_cases:
  "squeeze w = (if length w = 1 then Scalar (hd w) else Vector w)"
  by (cases w; cases "tl w") (simp_all add: squeeze_def)

lemma test_worker_eq:
  "test_worker e out_wav file_path in_dir out_dir l tr =
     (if length (take l out_wav) = 1
      then (Some ValueError, tr @ [Makedirs (join out_dir (replace (dirname file_path) in_dir []))])
      else if writable e (out_file_path in_dir out_dir file_path)
      then (None, tr @ [Makedirs (join out_dir (replace (dirname file_path) in_dir [])),
              WriteWav (out_file_path in_dir out_dir file_path) (inv_preemphasis (take l out_wav))])
      else (Some (WriteError (out_file_path in_dir out_dir file_path)),
            tr @ [Makedirs (join out_dir (replace (dirname file_path) in_dir []))]))"
  by (simp add: test_worker_def squeeze_cases inv_preemphasis_nd_def write_wav_def
      out_file_path_def Let_def)

lemma test_worker_writes:
  "writes_of (snd (test_worker e out_wav file_path in_dir out_dir l tr)) =
     writes_of tr @ (if job_ok e in_dir out_dir (out_wav, file_path, l)
                     then [job_write in_dir out_dir (out_wav, file_path, l)] else [])"
  by (simp add: test_worker_eq job_ok_def job_write_def writes_of_append)

lemma test_worker_ok:
  "fst (test_worker e out_wav file_path in_dir out_dir l tr) = None \<longleftrightarrow>
     job_ok e in_dir out_dir (out_wav, file_path, l)"
  by (simp add: test_worker_eq job_ok_def)

lemma parallel_writes:
  "writes_of (snd (parallel e in_dir out_dir jobs tr)) =
     writes_of tr @ map (job_write in_dir out_dir) (takeWhile (job_ok e in_dir out_dir) jobs)"
proof (induction jobs arbitrary: tr)
  case Nil
  show ?case by simp
next
  case (Cons job jobs)
  obtain out_wav file_path l where job: "job = (out_wav, file_path, l)" by (cases job)
  show ?case
    by (simp add: job snd_and_then test_worker_ok Cons.IH test_worker_writes)
qed

lemma parallel_ok:
  "fst (parallel e in_dir out_dir jobs tr) = None \<longleftrightarrow> list_all (job_ok e in_dir out_dir) jobs"
proof (induction jobs arbitrary: tr)
  case Nil
  show ?case by simp
next
  case (Cons job jobs)
  obtain out_wav file_path l where job: "job = (out_wav, file_path, l)" by (cases job)
  show ?case
    by (simp add: job fst_and_then test_worker_ok Cons.IH)
qed

lemma batch_loop_writes:
  "writes_of (snd (batch_loop e in_dir out_dir wav_list bs xs tr)) =
     writes_of tr @ map (job_write in_dir out_dir)
       (takeWhile (job_ok e in_dir out_dir) (concat (map (zipping_list e wav_list bs) xs)))"
proof (induction xs arbitrary: tr)
  case Nil
  show ?case by simp
next
  case (Cons x xs)
  show ?case
  proof (cases "list_all (job_ok e in_dir out_dir) (zipping_list e wav_list bs x)")
    case True
    then have tw: "takeWhile (job_ok e in_dir out_dir) (zipping_list e wav_list bs x) =
        zipping_list e wav_list bs x"
      by (simp add: takeWhile_eq_all_conv list_all_iff)
    show ?thesis
      by (simp add: snd_and_then parallel_ok parallel_writes Cons.IH takeWhile_append_all
          writes_of_append True tw)
  next
    case False
    then show ?thesis
      by (simp add: snd_and_then parallel_ok parallel_writes takeWhile_append_all
          writes_of_append)
  qed
qed

lemma batch_loop_ok:
  "fst (batch_loop e in_dir out_dir wav_list bs xs tr) = None \<longleftrightarrow>
     list_all (job_ok e in_dir out_dir) (concat (map (zipping_list e wav_list bs) xs))"
proof (induction xs arbitrary: tr)
  case Nil
  show ?case by simp
next
  case (Cons x xs)
  show ?case
    by (simp add: fst_and_then parallel_ok Cons.IH)
qed

lemma test_dir_writes:
  assumes "0 < bs"
  shows "writes_of (snd (test_dir e in_dir out_dir bs)) =
           map (job_write in_dir out_dir)
             (takeWhile (job_ok e in_dir out_dir) (test_dir_jobs e in_dir bs))"
  using assms by (simp add: test_dir_def batch_loop_writes test_dir_jobs_def Let_def)

lemma test_dir_ok:
  assumes "0 < bs"
  shows "fst (test_dir e in_dir out_dir bs) = None \<longleftrightarrow>
           list_all (job_ok e in_dir out_dir) (test_dir_jobs e in_dir bs)"
  using assms by (simp add: test_dir_def batch_loop_ok test_dir_jobs_def Let_def)

text \<open>The batches of the loader are the consecutive groups of \<open>batch_size\<close> files.\<close>

lemma chunks_Nil: "chunks n [] = []"
  by (simp add: chunks.simps)

lemma chunks_step: "0 < n \<Longrightarrow> xs \<noteq> [] \<Longrightarrow> chunks n xs = take n xs # chunks n (drop n xs)"
  by (subst chunks.simps) simp

lemma ceil_div_step:
  fixes n m :: nat
  assumes "0 < n" "0 < m"
  shows "(m + n - 1) div n = Suc ((m - n + n - 1) div n)"
proof (cases "n \<le> m")
  case True
  then have "m + n - 1 = (m - n + n - 1) + n" using assms by linarith
  then have "(m + n - 1) div n = ((m - n + n - 1) + n) div n" by (rule arg_cong)
  also have "\<dots> = Suc ((m - n + n - 1) div n)" using assms(1) by (simp only: div_add_self2)
  finally show ?thesis .
next
  case False
  then have a: "m - n = 0" by simp
  have "(m + n - 1) div n = 1"
  proof (rule div_nat_eqI)
    show "n * 1 \<le> m + n - 1" using assms by simp
    show "m + n - 1 < n * Suc 1" using False assms by simp
  qed
  moreover have "(n - 1) div n = 0" using assms(1) by simp
  ultimately show ?thesis by (simp add: a)
qed


lemma length_chunks: "0 < n \<Longrightarrow> length (chunks n xs) = (length xs + n - 1) div n"
proof (induction n xs rule: chunks.induct)
  case (1 n xs)
  show ?case
  proof (cases "xs = []")
    case True
    with 1(2) show ?thesis by (simp add: chunks_Nil)
  next
    case False
    then have pos: "0 < length xs" by simp
    from False 1(2) have IH: "length (chunks n (drop n xs)) = (length (drop n xs) + n - 1) div n"
      using 1(1) by simp
    have "length (chunks n xs) = Suc (length (chunks n (drop n xs)))"
      using False 1(2) by (simp add: chunks_step)
    also have "\<dots> = Suc ((length xs - n + n - 1) div n)"
      by (simp only: IH length_drop)
    also have "\<dots> = (length xs + n - 1) div n"
      by (rule ceil_div_step[OF 1(2) pos, symmetric])
    finally show ?thesis .
  qed
qed


lemma concat_chunks: "0 < n \<Longrightarrow> concat (chunks n xs) = xs"
proof (induction n xs rule: chunks.induct)
  case (1 n xs)
  show ?case
  proof (cases "xs = []")
    case True
    then show ?thesis by (simp add: chunks_Nil)
  next
    case False
    with 1 show ?thesis by (simp add: chunks_step)
  qed
qed

lemma chunks_map: "chunks n (map f xs) = map (map f) (chunks n xs)"
proof (induction n xs rule: chunks.induct)
  case (1 n xs)
  show ?case
  proof (cases "n = 0 \<or> xs = []")
    case True
    then show ?thesis by (auto simp: chunks.simps)
  next
    case False
    with 1 show ?thesis by (simp add: chunks_step take_map drop_map)
  qed
qed

lemma chunks_nth:
  "0 < n \<Longrightarrow> k < length (chunks n xs) \<Longrightarrow> chunks n xs ! k = take n (drop (k * n) xs)"
proof (induction n xs arbitrary: k rule: chunks.induct)
  case (1 n xs)
  show ?case
  proof (cases "xs = []")
    case True
    with 1(3) show ?thesis by (simp add: chunks_Nil)
  next
    case False
    have step: "chunks n xs = take n xs # chunks n (drop n xs)"
      using False 1(2) by (rule chunks_step[rotated])
    show ?thesis
    proof (cases k)
      case 0
      then show ?thesis by (simp add: step)
    next
      case (Suc k')
      with 1(3) have k': "k' < length (chunks n (drop n xs))" by (simp add: step)
      from False 1(2) have c: "\<not> (n = 0 \<or> xs = [])" by simp
      have "chunks n (drop n xs) ! k' = take n (drop (k' * n) (drop n xs))"
        by (rule 1(1)[OF c 1(2) k'])
      then show ?thesis by (simp add: step Suc add.commute)
    qed
  qed
qed


text \<open>Collation, and the calls of one group of files.\<close>

lemma snd_pad_collate_fn: "snd (pad_collate_fn items) = map snd items"
  by (simp add: pad_collate_fn_def Let_def)

lemma length_fst_pad_collate_fn: "length (fst (pad_collate_fn items)) = length items"
  by (simp add: pad_collate_fn_def Let_def)

lemma max_len_ge: "w \<in> set ws \<Longrightarrow> length w \<le> max_len ws"
  by (induction ws) (auto simp: max_len_def)

lemma max_len_Max: "ws \<noteq> [] \<Longrightarrow> max_len ws = Max (set (map length ws))"
proof (induction ws)
  case Nil
  then show ?case by simp
next
  case (Cons w ws)
  show ?case
  proof (cases "ws = []")
    case True
    then show ?thesis by (simp add: max_len_def)
  next
    case False
    with Cons.IH have "max_len ws = Max (set (map length ws))" by simp
    moreover have "max_len (w # ws) = max (length w) (max_len ws)" by (simp add: max_len_def)
    ultimately show ?thesis using False by simp
  qed
qed

lemma pad_collate_fn_row:
  assumes "i < length items"
  shows "fst (pad_collate_fn items) ! i =
           fst (items ! i) @ replicate (max_len (map fst items) - length (fst (items ! i))) 0"
    and "length (fst (pad_collate_fn items) ! i) = max_len (map fst items)"
proof -
  show r: "fst (pad_collate_fn items) ! i =
           fst (items ! i) @ replicate (max_len (map fst items) - length (fst (items ! i))) 0"
    using assms by (simp add: pad_collate_fn_def Let_def split_def)
  have "fst (items ! i) \<in> set (map fst items)" using assms by simp
  from max_len_ge[OF this] show "length (fst (pad_collate_fn items) ! i) = max_len (map fst items)"
    by (simp add: r)
qed


lemma test_dir_jobs_chunks:
  assumes "0 < bs"
  shows "test_dir_jobs e in_dir bs = concat (map (chunk_jobs e) (chunks bs (glob_wav e in_dir)))"
proof -
  define wl where "wl = glob_wav e in_dir"
  define C where "C = chunks bs wl"
  have dl: "data_loader e wl bs = map (\<lambda>W. pad_collate_fn (map (getitem e) W)) C"
    by (simp add: data_loader_def chunks_map C_def comp_def)
  have rg: "py_range (length wl) bs = map (\<lambda>k. k * bs) [0..<length C]"
    by (simp add: py_range_def C_def length_chunks[OF assms])
  have z: "zip (data_loader e wl bs) (py_range (length wl) bs) =
      map (\<lambda>k. (pad_collate_fn (map (getitem e) (C ! k)), k * bs)) [0..<length C]"
    unfolding dl rg by (rule zip_map_upt)
  have zl: "zipping_list e wl bs (pad_collate_fn (map (getitem e) (C ! k)), k * bs) = chunk_jobs e (C ! k)"
    if "k < length C" for k
  proof -
    have "take bs (drop (k * bs) wl) = C ! k"
      using chunks_nth[OF assms, of k wl] that by (simp add: C_def)
    then show ?thesis
      by (simp add: zipping_list_def chunk_jobs_def snd_pad_collate_fn getitem_def comp_def Let_def)
  qed
  have "map (zipping_list e wl bs) (zip (data_loader e wl bs) (py_range (length wl) bs)) =
        map (\<lambda>k. chunk_jobs e (C ! k)) [0..<length C]"
    unfolding z by (simp add: zl)
  also have "\<dots> = map (chunk_jobs e) C"
    by (rule nth_equalityI) simp_all
  finally show ?thesis
    by (simp add: test_dir_jobs_def wl_def C_def)
qed

lemma chunk_jobs_snd:
  assumes "\<forall>b. length (model e b) = length b"
  shows "map snd (chunk_jobs e W) = map (\<lambda>p. (p, length (decode e p))) W"
proof -
  have "length (model e (fst (pad_collate_fn (map (getitem e) W)))) = length W"
    using assms by (simp add: length_fst_pad_collate_fn)
  then have "map snd (chunk_jobs e W) = zip W (map (\<lambda>p. length (decode e p)) W)"
    by (simp add: chunk_jobs_def)
  also have "\<dots> = map (\<lambda>p. (p, length (decode e p))) W"
    by (induction W) simp_all
  finally show ?thesis .
qed

lemma chunk_jobs_fst:
  assumes "\<forall>b. length (model e b) = length b"
  shows "map fst (chunk_jobs e W) = model e (fst (pad_collate_fn (map (getitem e) W)))"
proof -
  have "length (model e (fst (pad_collate_fn (map (getitem e) W)))) = length W"
    using assms by (simp add: length_fst_pad_collate_fn)
  then show ?thesis by (simp add: chunk_jobs_def)
qed

lemma demo_jobs:
  "test_dir_jobs demo_env ''in'' 2 =
     [([3 / 4, - (191 / 400), 0], ''in/a.wav'', 2),
      ([1 / 10, 103 / 1000, - (147 / 500)], ''in/b.wav'', 3),
      ([1 / 10, 103 / 1000, - (147 / 500)], ''in/d.wav'', 3)]"
  by (simp add: test_dir_jobs_def demo_env_def eval_defs)

lemma readonly_jobs:
  "test_dir_jobs readonly_env ''in'' 4 =
     [([3 / 4, - (191 / 400), 0], ''in/a.wav'', 2),
      ([1 / 10, 103 / 1000, - (147 / 500)], ''in/b.wav'', 3),
      ([1 / 10, 103 / 1000, - (147 / 500)], ''in/d.wav'', 3),
      ([1 / 10, 103 / 1000, - (147 / 500)], ''in/e.wav'', 3)]"
  by (simp add: test_dir_jobs_def readonly_env_def demo_env_def eval_defs)

text \<open>
  Claim C4. For a positive batch size and a network that returns as many rows as it is
  given: the loader collates consecutive groups of the discovered files, which together
  are the discovered files in order; a collated batch has one row per item, each row the
  item's wave followed by zeros up to the longest wave of the batch, and the array of
  the recorded lengths; the calls handed to the worker pool pair, in order, the
  \<open>i\<close>-th discovered file and its true length with the \<open>i\<close>-th row of the model
  outputs; and when every call completes, the \<open>i\<close>-th file written is the one at
  the destination computed from the \<open>i\<close>-th discovered file.
\<close>

theorem C4_collation_and_order:
  assumes "0 < batch_size"
    and "\<forall>b. length (model e b) = length b"
  shows "data_loader e (glob_wav e in_dir) batch_size =
           map (\<lambda>W. pad_collate_fn (map (getitem e) W)) (chunks batch_size (glob_wav e in_dir)) \<and>
         concat (chunks batch_size (glob_wav e in_dir)) = glob_wav e in_dir \<and>
         length (fst (pad_collate_fn items)) = length items \<and>
         snd (pad_collate_fn items) = map snd items \<and>
         (\<forall>i<length items.
            fst (pad_collate_fn items) ! i =
              fst (items ! i) @ replicate (max_len (map fst items) - length (fst (items ! i))) 0 \<and>
            length (fst (pad_collate_fn items) ! i) = max_len (map fst items)) \<and>
         (items \<noteq> [] \<longrightarrow> max_len (map fst items) = Max (set (map length (map fst items)))) \<and>
         map snd (test_dir_jobs e in_dir batch_size) =
           map (\<lambda>p. (p, length (decode e p))) (glob_wav e in_dir) \<and>
         map fst (test_dir_jobs e in_dir batch_size) =
           concat (map (\<lambda>dp. model e (fst dp)) (data_loader e (glob_wav e in_dir) batch_size)) \<and>
         (list_all (job_ok e in_dir out_dir) (test_dir_jobs e in_dir batch_size) \<longrightarrow>
            writes_of (snd (test_dir e in_dir out_dir batch_size)) =
              map (job_write in_dir out_dir) (test_dir_jobs e in_dir batch_size))"
proof -
  have dl: "data_loader e (glob_wav e in_dir) batch_size =
      map (\<lambda>W. pad_collate_fn (map (getitem e) W)) (chunks batch_size (glob_wav e in_dir))"
    by (simp add: data_loader_def chunks_map comp_def)
  have cc: "concat (chunks batch_size (glob_wav e in_dir)) = glob_wav e in_dir"
    by (rule concat_chunks[OF assms(1)])
  have rows: "\<forall>i<length items.
            fst (pad_collate_fn items) ! i =
              fst (items ! i) @ replicate (max_len (map fst items) - length (fst (items ! i))) 0 \<and>
            length (fst (pad_collate_fn items) ! i) = max_len (map fst items)"
    using pad_collate_fn_row by blast
  have mx: "items \<noteq> [] \<longrightarrow> max_len (map fst items) = Max (set (map length (map fst items)))"
    using max_len_Max[of "map fst items"] by simp
  have sn: "map snd (test_dir_jobs e in_dir batch_size) =
      map (\<lambda>p. (p, length (decode e p))) (glob_wav e in_dir)"
  proof -
    have "map snd (test_dir_jobs e in_dir batch_size) =
        concat (map (\<lambda>W. map snd (chunk_jobs e W)) (chunks batch_size (glob_wav e in_dir)))"
      by (simp add: test_dir_jobs_chunks[OF assms(1)] map_concat comp_def)
    also have "\<dots> = concat (map (map (\<lambda>p. (p, length (decode e p)))) (chunks batch_size (glob_wav e in_dir)))"
      by (simp add: chunk_jobs_snd[OF assms(2)])
    also have "\<dots> = map (\<lambda>p. (p, length (decode e p))) (concat (chunks batch_size (glob_wav e in_dir)))"
      by (simp add: map_concat)
    finally show ?thesis by (simp only: cc)
  qed
  have ft: "map fst (test_dir_jobs e in_dir batch_size) =
      concat (map (\<lambda>dp. model e (fst dp)) (data_loader e (glob_wav e in_dir) batch_size))"
    by (simp add: test_dir_jobs_chunks[OF assms(1)] map_concat comp_def
        chunk_jobs_fst[OF assms(2)] dl)
  have wr: "list_all (job_ok e in_dir out_dir) (test_dir_jobs e in_dir batch_size) \<longrightarrow>
            writes_of (snd (test_dir e in_dir out_dir batch_size)) =
              map (job_write in_dir out_dir) (test_dir_jobs e in_dir batch_size)"
  proof
    assume "list_all (job_ok e in_dir out_dir) (test_dir_jobs e in_dir batch_size)"
    then have tw: "takeWhile (job_ok e in_dir out_dir) (test_dir_jobs e in_dir batch_size) =
        test_dir_jobs e in_dir batch_size"
      by (simp add: takeWhile_eq_all_conv list_all_iff)
    show "writes_of (snd (test_dir e in_dir out_dir batch_size)) =
              map (job_write in_dir out_dir) (test_dir_jobs e in_dir batch_size)"
      by (simp only: test_dir_writes[OF assms(1)] tw)
  qed
  from dl cc length_fst_pad_collate_fn[of items] snd_pad_collate_fn[of items] rows mx sn ft wr
  show ?thesis by blast
qed

theorem C4_collation_and_order_witness:
  "(0::nat) < 2 \<and>
   (\<forall>b. length (model demo_env b) = length b) \<and>
   length (fst (pad_collate_fn spec_example_items)) = 3 \<and>
   snd (pad_collate_fn spec_example_items) = [5, 9, 3] \<and>
   fst (pad_collate_fn spec_example_items) ! 0 = [1, 1, 1, 1, 1, 0, 0, 0, 0] \<and>
   fst (pad_collate_fn spec_example_items) ! 2 = [1, 1, 1, 0, 0, 0, 0, 0, 0] \<and>
   map snd (test_dir_jobs demo_env ''in'' 2) =
     [(''in/a.wav'', 2), (''in/b.wav'', 3), (''in/d.wav'', 3)] \<and>
   list_all (job_ok demo_env ''in'' ''out'') (test_dir_jobs demo_env ''in'' 2) \<and>
   writes_of (snd (test_dir demo_env ''in'' ''out'' 2)) =
     [(''out/a.wav'', [3 / 4, 1 / 4]), (''out/b.wav'', [1 / 10, 1 / 5, - (1 / 10)]),
      (''out/d.wav'', [1 / 10, 1 / 5, - (1 / 10)])]"
proof -
  have bs: "(0::nat) < 2" by simp
  have rows: "\<forall>b. length (model demo_env b) = length b" by (simp add: demo_env_def)
  note T = C4_collation_and_order[where in_dir = "''in''" and items = spec_example_items
      and out_dir = "''out''", OF bs rows]
  have n: "length spec_example_items = 3" by (simp add: spec_example_items_def)
  have mx: "max_len (map fst spec_example_items) = 9"
    by (simp add: spec_example_items_def max_len_def)
  from T have "length (fst (pad_collate_fn spec_example_items)) = length spec_example_items"
    by blast
  then have c1: "length (fst (pad_collate_fn spec_example_items)) = 3" by (simp only: n)
  from T have "snd (pad_collate_fn spec_example_items) = map snd spec_example_items" by blast
  then have c2: "snd (pad_collate_fn spec_example_items) = [5, 9, 3]"
    by (simp add: spec_example_items_def)
  from T have r: "\<forall>i<length spec_example_items.
      fst (pad_collate_fn spec_example_items) ! i =
        fst (spec_example_items ! i) @
        replicate (max_len (map fst spec_example_items) - length (fst (spec_example_items ! i))) 0"
    by blast
  from r n have "fst (pad_collate_fn spec_example_items) ! 0 =
        fst (spec_example_items ! 0) @
        replicate (max_len (map fst spec_example_items) - length (fst (spec_example_items ! 0))) 0"
    by simp
  then have c3: "fst (pad_collate_fn spec_example_items) ! 0 = [1, 1, 1, 1, 1, 0, 0, 0, 0]"
    unfolding mx by (simp add: spec_example_items_def numeral_eq_Suc)
  from r n have "fst (pad_collate_fn spec_example_items) ! 2 =
        fst (spec_example_items ! 2) @
        replicate (max_len (map fst spec_example_items) - length (fst (spec_example_items ! 2))) 0"
    by simp
  then have c4: "fst (pad_collate_fn spec_example_items) ! 2 = [1, 1, 1, 0, 0, 0, 0, 0, 0]"
    unfolding mx by (simp add: spec_example_items_def numeral_eq_Suc)
  from T have "map snd (test_dir_jobs demo_env ''in'' 2) =
      map (\<lambda>p. (p, length (decode demo_env p))) (glob_wav demo_env ''in'')"
    by blast
  then have c5: "map snd (test_dir_jobs demo_env ''in'' 2) =
      [(''in/a.wav'', 2), (''in/b.wav'', 3), (''in/d.wav'', 3)]"
    by (simp add: demo_env_def)
  have ok: "list_all (job_ok demo_env ''in'' ''out'') (test_dir_jobs demo_env ''in'' 2)"
    unfolding demo_jobs by (simp add: job_ok_def out_file_path_def demo_env_def eval_defs)
  from T ok have "writes_of (snd (test_dir demo_env ''in'' ''out'' 2)) =
      map (job_write ''in'' ''out'') (test_dir_jobs demo_env ''in'' 2)"
    by blast
  then have c6: "writes_of (snd (test_dir demo_env ''in'' ''out'' 2)) =
     [(''out/a.wav'', [3 / 4, 1 / 4]), (''out/b.wav'', [1 / 10, 1 / 5, - (1 / 10)]),
      (''out/d.wav'', [1 / 10, 1 / 5, - (1 / 10)])]"
    unfolding demo_jobs by (simp add: job_write_def out_file_path_def eval_defs)
  from bs rows c1 c2 c3 c4 c5 ok c6 show ?thesis by blast
qed

text \<open>
  Lengths in directory mode. When the network keeps the shape of its input, every call
  carries the true length \<open>l\<close> of its wave, the row is at least \<open>l\<close> long, and what a
  completed call writes has length \<open>l\<close>.
\<close>

lemma persisted_length:
  assumes "0 < bs"
    and "\<forall>b. length (model e b) = length b"
    and "\<forall>b. \<forall>i<length b. length (model e b ! i) = length (b ! i)"
    and "(out_wav, p, l) \<in> set (test_dir_jobs e in_dir bs)"
  shows "l = length (decode e p) \<and>
         length (snd (job_write in_dir out_dir (out_wav, p, l))) = length (decode e p)"
proof -
  from assms(4) obtain W where W: "(out_wav, p, l) \<in> set (chunk_jobs e W)"
    by (auto simp: test_dir_jobs_chunks[OF assms(1)])
  define items where "items = map (getitem e) W"
  define M where "M = model e (fst (pad_collate_fn items))"
  have lenM: "length M = length W"
    using assms(2) by (simp add: M_def length_fst_pad_collate_fn items_def)
  from W obtain i where i: "i < length W" "out_wav = M ! i" "p = W ! i" "l = length (decode e (W ! i))"
    unfolding chunk_jobs_def M_def[symmetric] items_def[symmetric]
    by (auto simp: set_zip lenM)
  have ii: "i < length items" using i(1) by (simp add: items_def)
  have "length (M ! i) = length (fst (pad_collate_fn items) ! i)"
    using assms(3) ii by (simp add: M_def length_fst_pad_collate_fn)
  also have "\<dots> = max_len (map fst items)" by (rule pad_collate_fn_row(2)[OF ii])
  finally have "length (fst (items ! i)) \<le> length (M ! i)"
    using max_len_ge[of "fst (items ! i)" "map fst items"] ii by simp
  then have "l \<le> length out_wav"
    using i by (simp add: items_def getitem_def length_preemphasis Let_def)
  with i show ?thesis
    by (simp add: job_write_def length_inv_preemphasis)
qed

text \<open>
  Claim C2. The persisted waveform should have the length of the input waveform. It
  fails for a waveform of one sample: the truncated row \<^verbatim>\<open>out_wav[:1]\<close> has one
  sample, \<^verbatim>\<open>squeeze()\<close> leaves it without an axis, and de-emphasis rejects it. With
  the files \<open>in/a.wav\<close> (two samples), \<open>in/c.wav\<close> (one sample) and \<open>in/b.wav\<close>
  in batches of two, \<open>in/a.wav\<close> is written, then the run ends with the error: nothing
  is written for \<open>in/c.wav\<close>, and the batch of \<open>in/b.wav\<close> is never reached.
\<close>

theorem C2_one_sample_file_not_written:
  "decode one_sample_env ''in/c.wav'' = [1 / 2] \<and>
   glob_wav one_sample_env ''in'' = [''in/a.wav'', ''in/c.wav'', ''in/b.wav''] \<and>
   test_dir one_sample_env ''in'' ''out'' 2 =
     (Some ValueError,
      [Makedirs ''out'', Forward [[3 / 4, - (191 / 400)], [1 / 2, 0]],
       Makedirs ''out/'', WriteWav ''out/a.wav'' [3 / 4, 1 / 4],
       Makedirs ''out/''])"
  by (simp add: one_sample_env_def demo_env_def eval_defs)

text \<open>
  Claim C6. The output should be written to \<open>out_dir\<close> joined with the sub-path of the
  file inside \<open>in_dir\<close>. With \<open>in_dir = in\<close> and \<open>out_dir = out\<close>, the file
  \<open>in/sub/b.wav\<close> is written to \<open>/sub/b.wav\<close>: removing \<open>in\<close> from the directory
  name leaves \<open>/sub\<close>, and joining \<open>out\<close> with a component that starts with a slash
  gives that component alone.
\<close>

theorem C6_nested_file_leaves_out_dir:
  "glob_wav nested_env ''in'' = [''in/a.wav'', ''in/sub/b.wav''] \<and>
   test_dir nested_env ''in'' ''out'' 2 =
     (None,
      [Makedirs ''out'',
       Forward [[3 / 4, - (191 / 400), 0], [1 / 10, 103 / 1000, - (147 / 500)]],
       Makedirs ''out/'', WriteWav ''out/a.wav'' [3 / 4, 1 / 4],
       Makedirs ''/sub'', WriteWav ''/sub/b.wav'' [1 / 10, 1 / 5, - (1 / 10)]])"
  by (simp add: nested_env_def demo_env_def eval_defs)

text \<open>
  Claim C7, as stated: a failure on one item does not stop the other items of its batch
  from being written. It fails: with four files in one batch and the destination of the
  third one not writable, the run ends with the error of the third item and the fourth
  file, whose destination \<open>out/e.wav\<close> is writable, is not written.
\<close>

theorem C7_counterexample:
  "test_dir readonly_env ''in'' ''out'' 4 =
     (Some (WriteError ''out/d.wav''),
      [Makedirs ''out'',
       Forward [[3 / 4, - (191 / 400), 0], [1 / 10, 103 / 1000, - (147 / 500)],
                [1 / 10, 103 / 1000, - (147 / 500)], [1 / 10, 103 / 1000, - (147 / 500)]],
       Makedirs ''out/'', WriteWav ''out/a.wav'' [3 / 4, 1 / 4],
       Makedirs ''out/'', WriteWav ''out/b.wav'' [1 / 10, 1 / 5, - (1 / 10)],
       Makedirs ''out/'']) \<and>
   glob_wav readonly_env ''in'' ! 3 = ''in/e.wav'' \<and>
   writable readonly_env (out_file_path ''in'' ''out'' ''in/e.wav'')"
  by (simp add: readonly_env_def demo_env_def eval_defs out_file_path_def)

text \<open>
  Claim C7, amended. Directory mode has no handling of a failing item. When the calls run
  in dispatch order (one worker), and call \<open>k\<close> is the first that fails, \<open>test_dir\<close>
  ends with an error, the files of the calls before \<open>k\<close> are written, and no file of
  call \<open>k\<close>, of a later call of its batch or of a later batch is written.
\<close>

theorem C7_first_failure_aborts:
  assumes "0 < batch_size"
    and "k < length (test_dir_jobs e in_dir batch_size)"
    and "\<not> job_ok e in_dir out_dir (test_dir_jobs e in_dir batch_size ! k)"
    and "\<forall>j<k. job_ok e in_dir out_dir (test_dir_jobs e in_dir batch_size ! j)"
  shows "fst (test_dir e in_dir out_dir batch_size) \<noteq> None \<and>
         writes_of (snd (test_dir e in_dir out_dir batch_size)) =
           map (job_write in_dir out_dir) (take k (test_dir_jobs e in_dir batch_size))"
proof -
  have "takeWhile (job_ok e in_dir out_dir) (test_dir_jobs e in_dir batch_size) =
        take k (test_dir_jobs e in_dir batch_size)"
    using assms(2,3,4) by (intro takeWhile_eq_take_P_nth) simp_all
  moreover have "\<not> list_all (job_ok e in_dir out_dir) (test_dir_jobs e in_dir batch_size)"
    using assms(2,3) by (auto simp: list_all_length)
  ultimately show ?thesis
    by (simp add: test_dir_writes[OF assms(1)] test_dir_ok[OF assms(1)])
qed

theorem C7_first_failure_aborts_witness:
  "(0::nat) < 4 \<and>
   (2::nat) < length (test_dir_jobs readonly_env ''in'' 4) \<and>
   \<not> job_ok readonly_env ''in'' ''out'' (test_dir_jobs readonly_env ''in'' 4 ! 2) \<and>
   job_ok readonly_env ''in'' ''out'' (test_dir_jobs readonly_env ''in'' 4 ! 0) \<and>
   job_ok readonly_env ''in'' ''out'' (test_dir_jobs readonly_env ''in'' 4 ! 1) \<and>
   fst (test_dir readonly_env ''in'' ''out'' 4) \<noteq> None \<and>
   writes_of (snd (test_dir readonly_env ''in'' ''out'' 4)) =
     [(''out/a.wav'', [3 / 4, 1 / 4]), (''out/b.wav'', [1 / 10, 1 / 5, - (1 / 10)])]"
proof -
  have bs: "(0::nat) < 4" by simp
  have k: "(2::nat) < length (test_dir_jobs readonly_env ''in'' 4)"
    by (simp add: readonly_jobs)
  have bad: "\<not> job_ok readonly_env ''in'' ''out'' (test_dir_jobs readonly_env ''in'' 4 ! 2)"
    unfolding readonly_jobs
    by (simp add: job_ok_def out_file_path_def readonly_env_def demo_env_def eval_defs)
  have ok0: "job_ok readonly_env ''in'' ''out'' (test_dir_jobs readonly_env ''in'' 4 ! 0)"
    unfolding readonly_jobs
    by (simp add: job_ok_def out_file_path_def readonly_env_def demo_env_def eval_defs)
  have ok1: "job_ok readonly_env ''in'' ''out'' (test_dir_jobs readonly_env ''in'' 4 ! 1)"
    unfolding readonly_jobs
    by (simp add: job_ok_def out_file_path_def readonly_env_def demo_env_def eval_defs)
  have before: "\<forall>j<2. job_ok readonly_env ''in'' ''out'' (test_dir_jobs readonly_env ''in'' 4 ! j)"
  proof (intro allI impI)
    fix j :: nat assume "j < 2"
    then have "j = 0 \<or> j = 1" by auto
    with ok0 ok1 show "job_ok readonly_env ''in'' ''out'' (test_dir_jobs readonly_env ''in'' 4 ! j)"
      by auto
  qed
  have ws: "map (job_write ''in'' ''out'') (take 2 (test_dir_jobs readonly_env ''in'' 4)) =
      [(''out/a.wav'', [3 / 4, 1 / 4]), (''out/b.wav'', [1 / 10, 1 / 5, - (1 / 10)])]"
    by (simp add: readonly_jobs job_write_def out_file_path_def eval_defs)
  from C7_first_failure_aborts[OF bs k bad before]
  have "fst (test_dir readonly_env ''in'' ''out'' 4) \<noteq> None \<and>
        writes_of (snd (test_dir readonly_env ''in'' ''out'' 4)) =
          [(''out/a.wav'', [3 / 4, 1 / 4]), (''out/b.wav'', [1 / 10, 1 / 5, - (1 / 10)])]"
    unfolding ws .
  with bs k bad ok0 ok1 show ?thesis by blast
qed

end
